theory Spec2Isabelle
  imports Complex_Main "HOL-Library.Sublist"
begin

section \<open>PhishGuard: classification, per-user statistics and analytics\<close>

text \<open>
  A shallow embedding of \<^verbatim>\<open>app.py\<close>, \<^verbatim>\<open>models.py\<close> and \<^verbatim>\<open>database_utils.py\<close>.

  Conventions of the model.
  \<^item> Python floats are modelled by \<^typ>\<open>real\<close>: every statement below is about exact
    arithmetic, not about IEEE rounding.
  \<^item> Python integers are \<^typ>\<open>int\<close>; timestamps are integers supplied by the caller
    (the value \<^verbatim>\<open>datetime.utcnow()\<close> returns during the call).
  \<^item> Text is \<^typ>\<open>string\<close>; the characters are read as code points below 128, on which
    \<^verbatim>\<open>str.lower\<close> and \<^verbatim>\<open>str.strip\<close> are modelled.
  \<^item> The two database tables are a list of \<^verbatim>\<open>ScanHistory\<close> rows and a map from the
    primary key \<^verbatim>\<open>user_id\<close> to the \<^verbatim>\<open>UserStatistics\<close> row.
  \<^item> A raised exception is a value \<open>Inl e\<close>.
\<close>

subsection \<open>Python built-ins used by the code\<close>

datatype error = ZeroDivisionError | AttributeError

text \<open>\<^verbatim>\<open>str.lower\<close> on ASCII: each of the letters A..Z moves to its lower-case letter, every
  other character stays.\<close>

definition lower_char :: "char \<Rightarrow> char" where
  "lower_char c =
     (case map_of (zip ''ABCDEFGHIJKLMNOPQRSTUVWXYZ'' ''abcdefghijklmnopqrstuvwxyz'') c of
        None \<Rightarrow> c
      | Some l \<Rightarrow> l)"

definition str_lower :: "string \<Rightarrow> string" where
  "str_lower text = map lower_char text"

text \<open>\<^verbatim>\<open>str.isspace\<close> on ASCII: tab, line feed, vertical tab, form feed, carriage return,
  the four separators 28..31 and the space.\<close>

definition str_isspace :: "char \<Rightarrow> bool" where
  "str_isspace c = (let n = (of_char c :: nat) in (9 \<le> n \<and> n \<le> 13) \<or> (28 \<le> n \<and> n \<le> 32))"

text \<open>\<^verbatim>\<open>str.strip()\<close>: drop the whitespace at both ends.\<close>

definition str_strip :: "string \<Rightarrow> string" where
  "str_strip text = rev (dropWhile str_isspace (rev (dropWhile str_isspace text)))"

text \<open>\<^verbatim>\<open>sub in text\<close> on strings: \<open>sub\<close> occurs as a contiguous run of \<open>text\<close>.\<close>

fun contains :: "string \<Rightarrow> string \<Rightarrow> bool" where
  "contains sub [] = (sub = [])"
| "contains sub (c # cs) = (prefix sub (c # cs) \<or> contains sub cs)"

text \<open>\<^verbatim>\<open>round(x, ndigits)\<close> in exact arithmetic: the nearest multiple of \<open>10^-ndigits\<close>,
  a tie going to the even neighbour.\<close>

definition round_half_even :: "real \<Rightarrow> int" where
  "round_half_even y =
     (let f = \<lfloor>y\<rfloor>; d = y - of_int f
      in if d < 1 / 2 then f else if 1 / 2 < d then f + 1 else if even f then f else f + 1)"

definition py_round :: "real \<Rightarrow> nat \<Rightarrow> real" where
  "py_round x ndigits = of_int (round_half_even (x * 10 ^ ndigits)) / 10 ^ ndigits"

subsection \<open>The classifier (\<^verbatim>\<open>classify_message\<close>)\<close>

text \<open>
  The globals \<^verbatim>\<open>ml_model\<close> and \<^verbatim>\<open>vectorizer\<close> are parameters: \<open>None\<close> when not loaded,
  otherwise the function the pickled object computes (\<^verbatim>\<open>predict_proba(features)[0][1]\<close> and
  \<^verbatim>\<open>transform([text])\<close>). The wall-clock duration the function measures is the
  parameter \<open>elapsed_ms\<close>.
\<close>

definition classify_message ::
  "('f \<Rightarrow> real) option \<Rightarrow> (string \<Rightarrow> 'f) option \<Rightarrow> int \<Rightarrow> string \<Rightarrow> bool \<times> real \<times> string \<times> int" where
  "classify_message ml_model vectorizer elapsed_ms text =
     (case (ml_model, vectorizer) of
        (Some predict_proba, Some transform) \<Rightarrow>
          (let features = transform text;
               risk_score = predict_proba features;
               is_phishing = (risk_score > 0.5);
               confidence =
                 (if risk_score > 0.8 \<or> risk_score < 0.2 then ''HIGH''
                  else if risk_score > 0.6 \<or> risk_score < 0.4 then ''MEDIUM''
                  else ''LOW'')
           in (is_phishing, risk_score, confidence, elapsed_ms))
      | _ \<Rightarrow>
          (let risk_score =
                 (if contains ''urgent'' (str_lower text) \<or> contains ''click'' (str_lower text)
                  then 0.75 else 0.25 :: real);
               is_phishing = (risk_score > 0.5);
               confidence = (if risk_score > 0.7 \<or> risk_score < 0.3 then ''HIGH'' else ''MEDIUM'')
           in (is_phishing, risk_score, confidence, elapsed_ms)))"

subsection \<open>The tables (\<^verbatim>\<open>models.py\<close>)\<close>

text \<open>
  A \<^verbatim>\<open>ScanHistory\<close> row. A nullable column is an option. The primary key \<^verbatim>\<open>id\<close> is the
  field \<open>id'\<close>; the column \<^verbatim>\<open>extracted_features\<close>, which no code path writes, is left out.
\<close>

record scan_history =
  id' :: int
  user_id :: "string option"
  device_id :: "string option"
  message_text :: string
  message_hash :: "string option"
  is_phishing :: bool
  risk_score :: real
  confidence_level :: "string option"
  model_version :: "string option"
  prediction_time_ms :: "int option"
  created_at :: int
  user_feedback :: "string option"
  feedback_timestamp :: "int option"
  ip_address :: "string option"
  user_agent :: "string option"

text \<open>
  A \<^verbatim>\<open>UserStatistics\<close> row. Its primary key \<^verbatim>\<open>user_id\<close> is the key of the table below.
\<close>

record user_statistics =
  total_scans :: int
  phishing_detected :: int
  safe_messages :: int
  average_risk_score :: real
  highest_risk_score :: real
  first_scan_date :: "int option"
  last_scan_date :: "int option"
  feedback_provided :: int
  correct_predictions :: int
  incorrect_predictions :: int
  updated_at :: "int option"

type_synonym stats_table = "string \<rightharpoonup> user_statistics"

record db =
  scans :: "scan_history list"
  stats :: stats_table

definition MODEL_VERSION :: string where
  "MODEL_VERSION = ''v1.0.0''"

subsection \<open>The statistics aggregator (\<^verbatim>\<open>update_user_statistics\<close>)\<close>

text \<open>
  The function returns at once for a missing or empty \<^verbatim>\<open>user_id\<close>. Otherwise it creates the
  row on the first scan and updates it in place afterwards. The division by the new
  \<^verbatim>\<open>total_scans\<close> raises when that is zero; the commit is then not reached and the table
  stays as it was.
\<close>

definition update_user_statistics ::
  "int \<Rightarrow> stats_table \<Rightarrow> string option \<Rightarrow> bool \<Rightarrow> real \<Rightarrow> error + stats_table" where
  "update_user_statistics now tbl uid is_phish score =
     (case uid of
        None \<Rightarrow> Inr tbl
      | Some u \<Rightarrow>
        if u = [] then Inr tbl
        else
        (case tbl u of
           None \<Rightarrow>
             Inr (tbl(u \<mapsto>
               \<lparr>total_scans = 1,
                phishing_detected = (if is_phish then 1 else 0),
                safe_messages = (if is_phish then 0 else 1),
                average_risk_score = score,
                highest_risk_score = score,
                first_scan_date = Some now,
                last_scan_date = Some now,
                feedback_provided = 0,
                correct_predictions = 0,
                incorrect_predictions = 0,
                updated_at = Some now\<rparr>))
         | Some row \<Rightarrow>
             (let row1 = row\<lparr>total_scans := total_scans row + 1\<rparr>;
                  row2 = (if is_phish
                          then row1\<lparr>phishing_detected := phishing_detected row1 + 1\<rparr>
                          else row1\<lparr>safe_messages := safe_messages row1 + 1\<rparr>)
              in if total_scans row2 = 0 then Inl ZeroDivisionError
                 else
                   (let row3 = row2\<lparr>average_risk_score :=
                          (average_risk_score row2 * of_int (total_scans row2 - 1) + score)
                            / of_int (total_scans row2)\<rparr>;
                        row4 = (if score > highest_risk_score row3
                                then row3\<lparr>highest_risk_score := score\<rparr> else row3);
                        row5 = row4\<lparr>last_scan_date := Some now, updated_at := Some now\<rparr>
                    in Inr (tbl(u \<mapsto> row5))))))"

text \<open>
  A scan event is what one call receives: the time of the call, the user, the verdict and
  the risk score. \<open>record_scans\<close> makes the calls in order, stopping at a raised error.
\<close>

type_synonym scan_event = "int \<times> string option \<times> bool \<times> real"

fun record_scans :: "stats_table \<Rightarrow> scan_event list \<Rightarrow> error + stats_table" where
  "record_scans tbl [] = Inr tbl"
| "record_scans tbl ((now, uid, is_phish, score) # evs) =
     (case update_user_statistics now tbl uid is_phish score of
        Inl e \<Rightarrow> Inl e
      | Inr tbl' \<Rightarrow> record_scans tbl' evs)"

text \<open>The risk scores and verdicts a sequence of events feeds in for one user.\<close>

definition scores_of :: "string \<Rightarrow> scan_event list \<Rightarrow> real list" where
  "scores_of u evs = map (\<lambda>(now, uid, is_phish, score). score)
                       (filter (\<lambda>(now, uid, is_phish, score). uid = Some u) evs)"

subsection \<open>The scan endpoint (\<^verbatim>\<open>scan_message\<close>, \<^verbatim>\<open>hash_message\<close>)\<close>

text \<open>
  The JSON body is absent (\<open>None\<close>) or an object; each key is absent or present. The value
  under \<^verbatim>\<open>message\<close> is a string or some other JSON value, on which \<^verbatim>\<open>.strip()\<close> raises.
\<close>

datatype json_value = JString string | JNotString

record scan_json =
  json_message :: "json_value option"
  json_user_id :: "string option"
  json_device_id :: "string option"

record scan_request =
  scan_body :: "scan_json option"
  remote_addr :: "string option"
  header_user_agent :: "string option"

record scan_reply =
  reply_scan_id :: int
  reply_is_phishing :: bool
  reply_risk_score :: real
  reply_confidence :: string
  reply_message :: string
  reply_prediction_time_ms :: int
  reply_timestamp :: int

text \<open>An HTTP answer: the body of a 200, or the status code and error text otherwise.\<close>

datatype 'a response = Success 'a | Failure int string

text \<open>
  \<^verbatim>\<open>hashlib.sha256(...).hexdigest()\<close> is the parameter \<open>sha256_hex\<close>; on the ASCII text of the
  model the UTF-8 encoding is the text itself.
\<close>

definition hash_message :: "(string \<Rightarrow> string) \<Rightarrow> string \<Rightarrow> string" where
  "hash_message sha256_hex text = sha256_hex text"

text \<open>The key an autoincrement integer primary key gives the next inserted row.\<close>

definition next_id :: "scan_history list \<Rightarrow> int" where
  "next_id rows = fold max (map id' rows) 0 + 1"

definition scan_message ::
  "('f \<Rightarrow> real) option \<Rightarrow> (string \<Rightarrow> 'f) option \<Rightarrow> (string \<Rightarrow> string) \<Rightarrow> int \<Rightarrow> int \<Rightarrow>
     db \<Rightarrow> scan_request \<Rightarrow> scan_reply response \<times> db" where
  "scan_message ml_model vectorizer sha256_hex elapsed_ms now d req =
     (case scan_body req of
        None \<Rightarrow> (Failure 400 ''Missing required field: message'', d)
      | Some data \<Rightarrow>
        (case json_message data of
           None \<Rightarrow> (Failure 400 ''Missing required field: message'', d)
         | Some JNotString \<Rightarrow> (Failure 500 ''Internal server error: AttributeError'', d)
         | Some (JString m) \<Rightarrow>
           (let text = str_strip m in
            if text = [] then (Failure 400 ''Message cannot be empty'', d)
            else
              (let uid = json_user_id data;
                   (is_phish, score, confidence, prediction_time) =
                      classify_message ml_model vectorizer elapsed_ms text;
                   scan_record =
                     \<lparr>id' = next_id (scans d),
                      user_id = uid,
                      device_id = json_device_id data,
                      message_text = text,
                      message_hash = Some (hash_message sha256_hex text),
                      is_phishing = is_phish,
                      risk_score = score,
                      confidence_level = Some confidence,
                      model_version = Some MODEL_VERSION,
                      prediction_time_ms = Some prediction_time,
                      created_at = now,
                      user_feedback = None,
                      feedback_timestamp = None,
                      ip_address = remote_addr req,
                      user_agent = Some (take 200
                        (case header_user_agent req of None \<Rightarrow> [] | Some h \<Rightarrow> h))\<rparr>;
                   d1 = d\<lparr>scans := scans d @ [scan_record]\<rparr>
               in case update_user_statistics now (stats d1) uid is_phish score of
                    Inl e \<Rightarrow> (Failure 500 ''Internal server error: ZeroDivisionError'', d1)
                  | Inr tbl \<Rightarrow>
                      (Success
                         \<lparr>reply_scan_id = id' scan_record,
                          reply_is_phishing = is_phish,
                          reply_risk_score = py_round score 4,
                          reply_confidence = confidence,
                          reply_message = (if is_phish then ''Phishing detected - High risk!''
                                           else ''Message appears safe''),
                          reply_prediction_time_ms = prediction_time,
                          reply_timestamp = created_at scan_record\<rparr>,
                       d1\<lparr>stats := tbl\<rparr>)))))"

subsection \<open>The feedback endpoint (\<^verbatim>\<open>submit_feedback\<close>)\<close>

record feedback_json =
  json_scan_id :: "int option"
  json_feedback :: "string option"

text \<open>\<^verbatim>\<open>ScanHistory.query.get(scan_id)\<close>: the row with this primary key, if any.\<close>

definition get_scan :: "scan_history list \<Rightarrow> int \<Rightarrow> scan_history option" where
  "get_scan rows scan_id = find (\<lambda>s. id' s = scan_id) rows"

text \<open>Writing the two feedback columns of the row with this primary key.\<close>

fun set_feedback :: "scan_history list \<Rightarrow> int \<Rightarrow> string \<Rightarrow> int \<Rightarrow> scan_history list" where
  "set_feedback [] scan_id feedback now = []"
| "set_feedback (s # rows) scan_id feedback now =
     (if id' s = scan_id
      then s\<lparr>user_feedback := Some feedback, feedback_timestamp := Some now\<rparr> # rows
      else s # set_feedback rows scan_id feedback now)"

text \<open>
  The increments of the statistics row. A scan without \<^verbatim>\<open>user_id\<close>, or whose user has no
  row, leaves the table as it is.
\<close>

definition feedback_statistics :: "int \<Rightarrow> stats_table \<Rightarrow> string option \<Rightarrow> string \<Rightarrow> stats_table" where
  "feedback_statistics now tbl uid feedback =
     (case uid of
        None \<Rightarrow> tbl
      | Some u \<Rightarrow>
        if u = [] then tbl
        else
        (case tbl u of
           None \<Rightarrow> tbl
         | Some row \<Rightarrow>
             (let row1 = row\<lparr>feedback_provided := feedback_provided row + 1\<rparr>;
                  row2 = (if feedback = ''CORRECT''
                          then row1\<lparr>correct_predictions := correct_predictions row1 + 1\<rparr>
                          else if feedback = ''INCORRECT''
                          then row1\<lparr>incorrect_predictions := incorrect_predictions row1 + 1\<rparr>
                          else row1)
              in tbl(u \<mapsto> row2\<lparr>updated_at := Some now\<rparr>))))"

text \<open>
  A missing body makes \<^verbatim>\<open>data.get\<close> raise, which the handler answers with a 500 after a
  rollback. \<^verbatim>\<open>not scan_id\<close> holds for a missing key and for 0, \<^verbatim>\<open>not feedback\<close> for a
  missing key and for the empty string.
\<close>

definition submit_feedback :: "int \<Rightarrow> db \<Rightarrow> feedback_json option \<Rightarrow> string response \<times> db" where
  "submit_feedback now d body =
     (case body of
        None \<Rightarrow> (Failure 500 ''Error submitting feedback: AttributeError'', d)
      | Some data \<Rightarrow>
        (case (json_scan_id data, json_feedback data) of
           (Some scan_id, Some feedback) \<Rightarrow>
             if scan_id = 0 \<or> feedback = []
             then (Failure 400 ''Missing required fields: scan_id, feedback'', d)
             else if feedback \<notin> set [''CORRECT'', ''INCORRECT'', ''UNSURE'']
             then (Failure 400
                    ''Invalid feedback value. Must be CORRECT, INCORRECT, or UNSURE'', d)
             else
               (case get_scan (scans d) scan_id of
                  None \<Rightarrow> (Failure 404 ''Scan not found'', d)
                | Some scan \<Rightarrow>
                    (Success ''Feedback recorded successfully'',
                     \<lparr>scans = set_feedback (scans d) scan_id feedback now,
                      stats = feedback_statistics now (stats d) (user_id scan) feedback\<rparr>))
         | _ \<Rightarrow> (Failure 400 ''Missing required fields: scan_id, feedback'', d)))"

subsection \<open>Analytics (\<^verbatim>\<open>AnalyticsEngine\<close>)\<close>

text \<open>
  The dictionary \<^verbatim>\<open>get_model_accuracy_from_feedback\<close> returns. A key the branch does not
  set is \<open>None\<close>; \<open>acc_accuracy\<close> is the outer option for the key and the inner one for
  Python's \<^verbatim>\<open>None\<close>.
\<close>

record accuracy_dict =
  acc_total_feedback :: int
  acc_correct_predictions :: "int option"
  acc_incorrect_predictions :: "int option"
  acc_accuracy :: "real option"
  acc_message :: "string option"

definition count_feedback :: "scan_history list \<Rightarrow> int" where
  "count_feedback rows = int (length (filter (\<lambda>s. user_feedback s \<noteq> None) rows))"

definition count_feedback_eq :: "string \<Rightarrow> scan_history list \<Rightarrow> int" where
  "count_feedback_eq kind rows = int (length (filter (\<lambda>s. user_feedback s = Some kind) rows))"

definition get_model_accuracy_from_feedback :: "scan_history list \<Rightarrow> accuracy_dict" where
  "get_model_accuracy_from_feedback rows =
     (let total_feedback = count_feedback rows in
      if total_feedback = 0
      then \<lparr>acc_total_feedback = 0,
            acc_correct_predictions = None,
            acc_incorrect_predictions = None,
            acc_accuracy = None,
            acc_message = Some ''No feedback data available''\<rparr>
      else
        (let correct = count_feedback_eq ''CORRECT'' rows;
             incorrect = count_feedback_eq ''INCORRECT'' rows;
             accuracy = (if correct + incorrect > 0
                         then real_of_int correct / real_of_int (correct + incorrect)
                         else 0)
         in \<lparr>acc_total_feedback = total_feedback,
              acc_correct_predictions = Some correct,
              acc_incorrect_predictions = Some incorrect,
              acc_accuracy = Some (py_round (accuracy * 100) 2),
              acc_message = None\<rparr>))"

text \<open>
  \<^verbatim>\<open>get_risk_score_distribution\<close>: one entry per bin, here the bounds and the count (the
  source formats the two bounds into the label \<^verbatim>\<open>range\<close>). \<^verbatim>\<open>1.0 / bins\<close> raises for
  \<open>bins = 0\<close>; \<^verbatim>\<open>range(bins)\<close> is empty for a negative \<open>bins\<close>.
\<close>

definition count_in_range :: "scan_history list \<Rightarrow> real \<Rightarrow> real \<Rightarrow> int" where
  "count_in_range rows lower upper =
     int (length (filter (\<lambda>s. risk_score s \<ge> lower \<and> risk_score s < upper) rows))"

definition get_risk_score_distribution ::
  "int \<Rightarrow> scan_history list \<Rightarrow> error + (real \<times> real \<times> int) list" where
  "get_risk_score_distribution bins rows =
     (if bins = 0 then Inl ZeroDivisionError
      else
        (let bin_size = 1 / real_of_int bins
         in Inr (map (\<lambda>i. (let lower = real i * bin_size;
                                upper = (real i + 1) * bin_size
                            in (lower, upper, count_in_range rows lower upper)))
                     [0 ..< nat bins])))"

subsection \<open>Invariants of the statistics table\<close>

text \<open>The invariant of one row: every counted scan is either a phishing or a safe one.\<close>

definition counts_consistent :: "user_statistics \<Rightarrow> bool" where
  "counts_consistent row = (total_scans row = phishing_detected row + safe_messages row)"

text \<open>
  The invariant of the table: every row is consistent and counts at least one scan (a row
  only comes into being with its first scan).
\<close>

definition stats_invariant :: "stats_table \<Rightarrow> bool" where
  "stats_invariant tbl =
     (\<forall>u row. tbl u = Some row \<longrightarrow> counts_consistent row \<and> 1 \<le> total_scans row)"

subsection \<open>Example data\<close>

text \<open>
  Ten scans of \<^verbatim>\<open>user_7\<close> with the scores 0.1, 0.2, ..., 1.0, interleaved with scans of
  another user and an anonymous scan.
\<close>

definition user_7_scans :: "scan_event list" where
  "user_7_scans =
     [(1, Some ''user_7'', False, 0.1), (2, Some ''user_8'', True, 0.9),
      (3, Some ''user_7'', False, 0.2), (4, Some ''user_7'', False, 0.3),
      (5, None, True, 0.7), (6, Some ''user_7'', False, 0.4),
      (7, Some ''user_7'', False, 0.5), (8, Some ''user_8'', False, 0.3),
      (9, Some ''user_7'', True, 0.6), (10, Some ''user_7'', True, 0.7),
      (11, Some ''user_7'', True, 0.8), (12, Some ''user_7'', True, 0.9),
      (13, Some ''user_7'', True, 1.0)]"

text \<open>A scan row for examples: everything but the key, the user, the score and the
  feedback is fixed.\<close>

definition example_scan :: "int \<Rightarrow> string option \<Rightarrow> real \<Rightarrow> string option \<Rightarrow> scan_history" where
  "example_scan n uid score feedback =
     \<lparr>id' = n, user_id = uid, device_id = None, message_text = ''hello'',
      message_hash = None, is_phishing = (score > 0.5), risk_score = score,
      confidence_level = Some ''HIGH'', model_version = Some MODEL_VERSION,
      prediction_time_ms = Some 3, created_at = 10, user_feedback = feedback,
      feedback_timestamp = None, ip_address = None, user_agent = None\<rparr>"

text \<open>A database with one scan of \<^verbatim>\<open>user_7\<close>, its statistics row, and an anonymous scan.\<close>

definition example_db :: db where
  "example_db =
     \<lparr>scans = [example_scan 1 (Some ''user_7'') 0.9 None, example_scan 2 None 0.1 None],
      stats = [''user_7'' \<mapsto>
        \<lparr>total_scans = 1, phishing_detected = 1, safe_messages = 0,
         average_risk_score = 0.9, highest_risk_score = 0.9,
         first_scan_date = Some 10, last_scan_date = Some 10,
         feedback_provided = 0, correct_predictions = 0, incorrect_predictions = 0,
         updated_at = Some 10\<rparr>]\<rparr>"

text \<open>A scan request of \<^verbatim>\<open>user_7\<close> with the given message text.\<close>

definition example_request :: "string \<Rightarrow> scan_request" where
  "example_request m =
     \<lparr>scan_body = Some \<lparr>json_message = Some (JString m), json_user_id = Some ''user_7'',
                        json_device_id = None\<rparr>,
      remote_addr = Some ''10.0.0.1'', header_user_agent = None\<rparr>"

text \<open>Scan rows with one CORRECT, two INCORRECT and one UNSURE feedback, and one without.\<close>

definition feedback_rows :: "scan_history list" where
  "feedback_rows =
     [example_scan 1 (Some ''user_7'') 0.9 (Some ''CORRECT''),
      example_scan 2 (Some ''user_7'') 0.8 (Some ''INCORRECT''),
      example_scan 3 None 0.1 (Some ''INCORRECT''),
      example_scan 4 None 0.2 (Some ''UNSURE''),
      example_scan 5 None 0.3 None]"

section \<open>Properties\<close>

subsection \<open>One call of the statistics update\<close>

lemma update_skip:
  "uid = None \<or> uid = Some [] \<Longrightarrow> update_user_statistics now tbl uid p s = Inr tbl"
  by (auto simp: update_user_statistics_def)

lemma update_create:
  "u \<noteq> [] \<Longrightarrow> tbl u = None \<Longrightarrow>
   update_user_statistics now tbl (Some u) p s =
     Inr (tbl(u \<mapsto>
       \<lparr>total_scans = 1,
        phishing_detected = (if p then 1 else 0),
        safe_messages = (if p then 0 else 1),
        average_risk_score = s,
        highest_risk_score = s,
        first_scan_date = Some now,
        last_scan_date = Some now,
        feedback_provided = 0,
        correct_predictions = 0,
        incorrect_predictions = 0,
        updated_at = Some now\<rparr>))"
  by (simp add: update_user_statistics_def)

lemma update_existing:
  "u \<noteq> [] \<Longrightarrow> tbl u = Some row \<Longrightarrow> total_scans row + 1 \<noteq> 0 \<Longrightarrow>
   update_user_statistics now tbl (Some u) p s =
     Inr (tbl(u \<mapsto>
       row\<lparr>total_scans := total_scans row + 1,
           phishing_detected := phishing_detected row + (if p then 1 else 0),
           safe_messages := safe_messages row + (if p then 0 else 1),
           average_risk_score :=
             (average_risk_score row * of_int (total_scans row) + s) / of_int (total_scans row + 1),
           highest_risk_score := max (highest_risk_score row) s,
           last_scan_date := Some now,
           updated_at := Some now\<rparr>))"
  by (simp add: update_user_statistics_def Let_def max_def)

lemma update_other:
  "update_user_statistics now tbl uid p s = Inr tbl' \<Longrightarrow> uid \<noteq> Some u \<Longrightarrow> tbl' u = tbl u"
  by (auto simp: update_user_statistics_def Let_def split: option.splits if_splits)

lemma stats_invariant_upd:
  "stats_invariant tbl \<Longrightarrow> counts_consistent row \<Longrightarrow> 1 \<le> total_scans row \<Longrightarrow>
   stats_invariant (tbl(u \<mapsto> row))"
  by (simp add: stats_invariant_def)

lemma update_total:
  assumes "stats_invariant tbl"
  shows "\<exists>tbl'. update_user_statistics now tbl uid p s = Inr tbl' \<and> stats_invariant tbl'"
proof (cases "uid = None \<or> uid = Some []")
  case True
  then show ?thesis using assms by (simp add: update_skip)
next
  case False
  then obtain u where u: "uid = Some u" "u \<noteq> []" by auto
  show ?thesis
  proof (cases "tbl u")
    case None
    show ?thesis
      using u(2) None unfolding u(1)
      by (simp add: update_create stats_invariant_upd [OF assms] counts_consistent_def)
  next
    case (Some row)
    with assms have row: "counts_consistent row" "1 \<le> total_scans row"
      by (auto simp: stats_invariant_def)
    then have nz: "total_scans row + 1 \<noteq> 0" by simp
    show ?thesis
      using row u(2) Some nz unfolding u(1)
      by (simp add: update_existing stats_invariant_upd [OF assms] counts_consistent_def)
  qed
qed

lemma record_scans_total:
  "stats_invariant tbl \<Longrightarrow> \<exists>tbl'. record_scans tbl evs = Inr tbl' \<and> stats_invariant tbl'"
proof (induction evs arbitrary: tbl)
  case Nil
  then show ?case by simp
next
  case (Cons ev evs)
  obtain now uid p s where ev: "ev = (now, uid, p, s)" by (cases ev) auto
  from update_total [OF Cons.prems] obtain tbl1
    where t1: "update_user_statistics now tbl uid p s = Inr tbl1" "stats_invariant tbl1"
    by blast
  from Cons.IH [OF t1(2)] show ?case by (simp add: ev t1(1))
qed

text \<open>Once the row of the user exists, each of its scans adds to the count and to the sum.\<close>

lemma record_scans_existing:
  assumes "u \<noteq> []" and "stats_invariant tbl" and "tbl u = Some row"
  shows "\<exists>tbl' row'. record_scans tbl evs = Inr tbl' \<and> stats_invariant tbl' \<and> tbl' u = Some row' \<and>
           total_scans row' = total_scans row + int (length (scores_of u evs)) \<and>
           average_risk_score row' * of_int (total_scans row') =
             average_risk_score row * of_int (total_scans row) + sum_list (scores_of u evs) \<and>
           highest_risk_score row' = fold max (scores_of u evs) (highest_risk_score row)"
  using assms
proof (induction evs arbitrary: tbl row)
  case Nil
  then show ?case by (simp add: scores_of_def)
next
  case (Cons ev evs)
  obtain now uid p s where ev: "ev = (now, uid, p, s)" by (cases ev) auto
  from update_total [OF Cons.prems(2)] obtain tbl1
    where t1: "update_user_statistics now tbl uid p s = Inr tbl1" "stats_invariant tbl1"
    by blast
  show ?case
  proof (cases "uid = Some u")
    case False
    with t1(1) have same: "tbl1 u = Some row" using Cons.prems(3) by (simp add: update_other)
    have sc: "scores_of u ((now, uid, p, s) # evs) = scores_of u evs"
      using False by (simp add: scores_of_def)
    from Cons.IH [OF Cons.prems(1) t1(2) same] show ?thesis
      unfolding ev by (simp add: t1(1) sc)
  next
    case True
    from Cons.prems have pos: "1 \<le> total_scans row" by (auto simp: stats_invariant_def)
    then have nz: "total_scans row + 1 \<noteq> 0" by simp
    define row1 where "row1 = row\<lparr>total_scans := total_scans row + 1,
           phishing_detected := phishing_detected row + (if p then 1 else 0),
           safe_messages := safe_messages row + (if p then 0 else 1),
           average_risk_score :=
             (average_risk_score row * of_int (total_scans row) + s) / of_int (total_scans row + 1),
           highest_risk_score := max (highest_risk_score row) s,
           last_scan_date := Some now,
           updated_at := Some now\<rparr>"
    have "update_user_statistics now tbl (Some u) p s = Inr (tbl(u \<mapsto> row1))"
      unfolding row1_def using Cons.prems(1,3) nz by (rule update_existing)
    with t1(1) True have tbl1: "tbl1 = tbl(u \<mapsto> row1)" by simp
    then have r1: "tbl1 u = Some row1" by simp
    have sc: "scores_of u ((now, uid, p, s) # evs) = s # scores_of u evs"
      using True by (simp add: scores_of_def)
    have tot1: "total_scans row1 = total_scans row + 1" by (simp add: row1_def)
    have avg1: "average_risk_score row1 * of_int (total_scans row1) =
                  average_risk_score row * of_int (total_scans row) + s"
      using pos by (simp add: row1_def)
    have hi1: "highest_risk_score row1 = max s (highest_risk_score row)"
      by (simp add: row1_def max.commute)
    from Cons.IH [OF Cons.prems(1) t1(2) r1] obtain tbl' row' where
      fin: "record_scans tbl1 evs = Inr tbl'" "stats_invariant tbl'" "tbl' u = Some row'"
        "total_scans row' = total_scans row1 + int (length (scores_of u evs))"
        "average_risk_score row' * of_int (total_scans row') =
             average_risk_score row1 * of_int (total_scans row1) + sum_list (scores_of u evs)"
        "highest_risk_score row' = fold max (scores_of u evs) (highest_risk_score row1)"
      by blast
    show ?thesis
      unfolding ev using fin avg1 by (simp add: t1(1) sc tot1 hi1)
  qed
qed

lemma record_scans_first:
  assumes "u \<noteq> []" and "stats_invariant tbl" and "tbl u = None" and "scores_of u evs \<noteq> []"
  shows "\<exists>tbl' row'. record_scans tbl evs = Inr tbl' \<and> tbl' u = Some row' \<and>
           total_scans row' = int (length (scores_of u evs)) \<and>
           average_risk_score row' * of_int (total_scans row') = sum_list (scores_of u evs) \<and>
           highest_risk_score row' = Max (set (scores_of u evs))"
  using assms
proof (induction evs arbitrary: tbl)
  case Nil
  then show ?case by (simp add: scores_of_def)
next
  case (Cons ev evs)
  obtain now uid p s where ev: "ev = (now, uid, p, s)" by (cases ev) auto
  from update_total [OF Cons.prems(2)] obtain tbl1
    where t1: "update_user_statistics now tbl uid p s = Inr tbl1" "stats_invariant tbl1"
    by blast
  show ?case
  proof (cases "uid = Some u")
    case False
    with t1(1) have same: "tbl1 u = None" using Cons.prems(3) by (simp add: update_other)
    have sc: "scores_of u ((now, uid, p, s) # evs) = scores_of u evs"
      using False by (simp add: scores_of_def)
    with Cons.prems(4) have ne: "scores_of u evs \<noteq> []" by (simp add: ev)
    from Cons.IH [OF Cons.prems(1) t1(2) same ne] show ?thesis
      unfolding ev by (simp add: t1(1) sc)
  next
    case True
    define row1 where "row1 =
       \<lparr>total_scans = 1,
        phishing_detected = (if p then 1 else 0),
        safe_messages = (if p then 0 else 1),
        average_risk_score = s,
        highest_risk_score = s,
        first_scan_date = Some now,
        last_scan_date = Some now,
        feedback_provided = 0,
        correct_predictions = 0,
        incorrect_predictions = 0,
        updated_at = Some now\<rparr>"
    have "update_user_statistics now tbl (Some u) p s = Inr (tbl(u \<mapsto> row1))"
      unfolding row1_def using Cons.prems(1,3) by (rule update_create)
    with t1(1) True have "tbl1 = tbl(u \<mapsto> row1)" by simp
    then have r1: "tbl1 u = Some row1" by simp
    have sc: "scores_of u ((now, uid, p, s) # evs) = s # scores_of u evs"
      using True by (simp add: scores_of_def)
    from record_scans_existing [OF Cons.prems(1) t1(2) r1, of evs] obtain tbl' row' where
      fin: "record_scans tbl1 evs = Inr tbl'" "tbl' u = Some row'"
        "total_scans row' = total_scans row1 + int (length (scores_of u evs))"
        "average_risk_score row' * of_int (total_scans row') =
             average_risk_score row1 * of_int (total_scans row1) + sum_list (scores_of u evs)"
        "highest_risk_score row' = fold max (scores_of u evs) (highest_risk_score row1)"
      by blast
    have mx: "fold max (scores_of u evs) s = Max (set (s # scores_of u evs))"
      by (simp only: Max.set_eq_fold)
    show ?thesis
      unfolding ev using fin mx by (simp add: t1(1) sc row1_def)
  qed
qed

subsection \<open>The running mean\<close>

text \<open>
  C1. For a user whose row does not exist yet, after any sequence of calls of the
  statistics update in which at least one scan is the user's, the stored
  \<^verbatim>\<open>average_risk_score\<close> is the sum of the user's scores divided by their number, in exact
  arithmetic, whatever other users' scans are interleaved: the incremental formula agrees
  with the direct summation. No call raises.
\<close>

theorem running_mean_is_exact_mean:
  assumes "u \<noteq> []" and "stats_invariant tbl" and "tbl u = None" and "scores_of u evs \<noteq> []"
  shows "\<exists>tbl' row. record_scans tbl evs = Inr tbl' \<and> tbl' u = Some row \<and>
           average_risk_score row = sum_list (scores_of u evs) / real (length (scores_of u evs))"
proof -
  from record_scans_first [OF assms] obtain tbl' row where
    fin: "record_scans tbl evs = Inr tbl'" "tbl' u = Some row"
      "total_scans row = int (length (scores_of u evs))"
      "average_risk_score row * of_int (total_scans row) = sum_list (scores_of u evs)"
    by blast
  from assms(4) have pos: "real (length (scores_of u evs)) \<noteq> 0" by simp
  from fin(3,4) have "average_risk_score row * real (length (scores_of u evs)) =
      sum_list (scores_of u evs)" by simp
  with pos have "average_risk_score row =
      sum_list (scores_of u evs) / real (length (scores_of u evs))"
    by (simp add: field_simps)
  with fin(1,2) show ?thesis by blast
qed

theorem running_mean_is_exact_mean_witness:
  "''user_7'' \<noteq> [] \<and> stats_invariant Map.empty \<and> Map.empty ''user_7'' = None \<and>
   scores_of ''user_7'' user_7_scans \<noteq> [] \<and>
   (\<exists>tbl' row. record_scans Map.empty user_7_scans = Inr tbl' \<and> tbl' ''user_7'' = Some row \<and>
      average_risk_score row = 0.55)"
proof -
  have h1: "''user_7'' \<noteq> []" by simp
  have h2: "stats_invariant Map.empty" by (simp add: stats_invariant_def)
  have h3: "(Map.empty :: stats_table) ''user_7'' = None" by simp
  have h4: "scores_of ''user_7'' user_7_scans \<noteq> []"
    by (simp add: scores_of_def user_7_scans_def)
  have sc: "sum_list (scores_of ''user_7'' user_7_scans) /
              real (length (scores_of ''user_7'' user_7_scans)) = 0.55"
    by (simp add: scores_of_def user_7_scans_def)
  from running_mean_is_exact_mean [OF h1 h2 h3 h4] sc h1 h2 h3 h4 show ?thesis by simp
qed

subsection \<open>The running maximum\<close>

text \<open>
  C7. Under the same conditions the stored \<^verbatim>\<open>highest_risk_score\<close> is the maximum of the
  scores fed in for the user.
\<close>

theorem highest_risk_score_is_max:
  assumes "u \<noteq> []" and "stats_invariant tbl" and "tbl u = None" and "scores_of u evs \<noteq> []"
  shows "\<exists>tbl' row. record_scans tbl evs = Inr tbl' \<and> tbl' u = Some row \<and>
           highest_risk_score row = Max (set (scores_of u evs))"
  using record_scans_first [OF assms] by blast

theorem highest_risk_score_is_max_witness:
  "''user_7'' \<noteq> [] \<and> stats_invariant Map.empty \<and> Map.empty ''user_7'' = None \<and>
   scores_of ''user_7'' user_7_scans \<noteq> [] \<and>
   (\<exists>tbl' row. record_scans Map.empty user_7_scans = Inr tbl' \<and> tbl' ''user_7'' = Some row \<and>
      highest_risk_score row = 1)"
proof -
  have h1: "''user_7'' \<noteq> []" by simp
  have h2: "stats_invariant Map.empty" by (simp add: stats_invariant_def)
  have h3: "(Map.empty :: stats_table) ''user_7'' = None" by simp
  have h4: "scores_of ''user_7'' user_7_scans \<noteq> []"
    by (simp add: scores_of_def user_7_scans_def)
  have sc: "Max (set (scores_of ''user_7'' user_7_scans)) = 1"
    by (simp add: scores_of_def user_7_scans_def)
  from highest_risk_score_is_max [OF h1 h2 h3 h4] sc h1 h2 h3 h4 show ?thesis by simp
qed

subsection \<open>The invariant of the counters\<close>

lemma feedback_statistics_invariant:
  assumes "stats_invariant tbl"
  shows "stats_invariant (feedback_statistics now tbl uid feedback)"
proof (cases "\<exists>u row. uid = Some u \<and> u \<noteq> [] \<and> tbl u = Some row")
  case False
  then have "feedback_statistics now tbl uid feedback = tbl"
    by (auto simp: feedback_statistics_def split: option.splits)
  with assms show ?thesis by simp
next
  case True
  then obtain u row where u: "uid = Some u" "u \<noteq> []" "tbl u = Some row" by blast
  with assms have "counts_consistent row" "1 \<le> total_scans row"
    by (auto simp: stats_invariant_def)
  then show ?thesis
    using u by (simp add: feedback_statistics_def Let_def stats_invariant_upd [OF assms]
        counts_consistent_def)
qed

lemma submit_feedback_stats:
  "stats (snd (submit_feedback now d body)) = stats d \<or>
   (\<exists>uid feedback. stats (snd (submit_feedback now d body)) =
        feedback_statistics now (stats d) uid feedback)"
  by (auto simp: submit_feedback_def split: option.splits)

lemma submit_feedback_invariant:
  "stats_invariant (stats d) \<Longrightarrow> stats_invariant (stats (snd (submit_feedback now d body)))"
  using submit_feedback_stats [of now d body] by (auto simp: feedback_statistics_invariant)

lemma scan_message_stats:
  "stats (snd (scan_message ml vec sha e now d req)) = stats d \<or>
   (\<exists>uid p s. update_user_statistics now (stats d) uid p s =
        Inr (stats (snd (scan_message ml vec sha e now d req))))"
  by (auto simp: scan_message_def Let_def split: option.splits json_value.splits prod.splits sum.splits)

lemma scan_message_invariant:
  assumes "stats_invariant (stats d)"
  shows "stats_invariant (stats (snd (scan_message ml vec sha e now d req)))"
proof -
  from scan_message_stats [of ml vec sha e now d req] show ?thesis
  proof
    assume "stats (snd (scan_message ml vec sha e now d req)) = stats d"
    with assms show ?thesis by simp
  next
    assume "\<exists>uid p s. update_user_statistics now (stats d) uid p s =
        Inr (stats (snd (scan_message ml vec sha e now d req)))"
    then obtain uid p s where "update_user_statistics now (stats d) uid p s =
        Inr (stats (snd (scan_message ml vec sha e now d req)))" by blast
    with update_total [OF assms, of now uid p s] show ?thesis by auto
  qed
qed

text \<open>
  C6. In a table where every row satisfies \<open>total_scans = phishing_detected + safe_messages\<close>
  (and counts at least one scan, as every row the code creates does), a call of the
  statistics update does not raise and leaves a table with the same property; the row of
  the scanned user, created with this scan or already there, has \<open>total_scans\<close> one
  higher and exactly one of \<open>phishing_detected\<close> and \<open>safe_messages\<close> one higher, by the
  verdict. The scan endpoint and the feedback endpoint keep the property too.
\<close>

theorem total_is_phishing_plus_safe:
  assumes "stats_invariant (stats d)"
  shows "(\<exists>tbl'. update_user_statistics now (stats d) uid p s = Inr tbl' \<and>
            (\<forall>v row. tbl' v = Some row \<longrightarrow>
               total_scans row = phishing_detected row + safe_messages row) \<and>
            stats_invariant tbl' \<and>
            (\<forall>u. uid = Some u \<longrightarrow> u \<noteq> [] \<longrightarrow>
               (\<exists>row'. tbl' u = Some row' \<and>
                  total_scans row' =
                    (case stats d u of None \<Rightarrow> 0 | Some row \<Rightarrow> total_scans row) + 1 \<and>
                  phishing_detected row' =
                    (case stats d u of None \<Rightarrow> 0 | Some row \<Rightarrow> phishing_detected row)
                      + (if p then 1 else 0) \<and>
                  safe_messages row' =
                    (case stats d u of None \<Rightarrow> 0 | Some row \<Rightarrow> safe_messages row)
                      + (if p then 0 else 1)))) \<and>
         stats_invariant (stats (snd (scan_message ml vec sha e now d req))) \<and>
         stats_invariant (stats (snd (submit_feedback now d body)))"
proof -
  from update_total [OF assms, of now uid p s] obtain tbl' where
    t: "update_user_statistics now (stats d) uid p s = Inr tbl'" "stats_invariant tbl'"
    by blast
  have cons: "\<forall>v row. tbl' v = Some row \<longrightarrow>
               total_scans row = phishing_detected row + safe_messages row"
    using t(2) by (auto simp: stats_invariant_def counts_consistent_def)
  have step: "\<exists>row'. tbl' u = Some row' \<and>
                  total_scans row' =
                    (case stats d u of None \<Rightarrow> 0 | Some row \<Rightarrow> total_scans row) + 1 \<and>
                  phishing_detected row' =
                    (case stats d u of None \<Rightarrow> 0 | Some row \<Rightarrow> phishing_detected row)
                      + (if p then 1 else 0) \<and>
                  safe_messages row' =
                    (case stats d u of None \<Rightarrow> 0 | Some row \<Rightarrow> safe_messages row)
                      + (if p then 0 else 1)"
    if u: "uid = Some u" "u \<noteq> []" for u
  proof (cases "stats d u")
    case None
    from t(1) u(2) None show ?thesis
      unfolding u(1) by (auto simp: update_create)
  next
    case (Some row)
    with assms have "1 \<le> total_scans row" by (auto simp: stats_invariant_def)
    then have nz: "total_scans row + 1 \<noteq> 0" by simp
    from t(1) u(2) Some nz show ?thesis
      unfolding u(1) by (auto simp: update_existing)
  qed
  show ?thesis
    using t cons step scan_message_invariant [OF assms] submit_feedback_invariant [OF assms]
    by blast
qed

theorem total_is_phishing_plus_safe_witness:
  "stats_invariant (stats example_db) \<and>
   (\<exists>tbl' row'. update_user_statistics 20 (stats example_db) (Some ''user_7'') False 0.3 = Inr tbl' \<and>
      tbl' ''user_7'' = Some row' \<and>
      total_scans row' = 2 \<and> phishing_detected row' = 1 \<and> safe_messages row' = 1)"
proof -
  have h: "stats_invariant (stats example_db)"
    by (simp add: stats_invariant_def example_db_def counts_consistent_def)
  note step = total_is_phishing_plus_safe [OF h, of 20 "Some ''user_7''" False "0.3", THEN conjunct1]
  from step h show ?thesis by (auto simp: example_db_def)
qed

subsection \<open>The classifier\<close>

lemma contains_iff: "contains sub t \<longleftrightarrow> sublist sub t"
  by (induction t) (auto simp: sublist_Cons_right)

text \<open>
  C2. With a model and a vectorizer loaded, the risk score is the model's probability, the
  verdict is \<open>risk_score > 0.5\<close>, and the confidence tier depends on the score alone:
  HIGH exactly above 0.8 or below 0.2, MEDIUM exactly in [0.2, 0.4) and (0.6, 0.8], LOW
  exactly in [0.4, 0.6]. So 0.4 and 0.6 are LOW, 0.2 and 0.8 are MEDIUM.
\<close>

theorem model_confidence_tier:
  "\<exists>conf. classify_message (Some predict_proba) (Some transform) elapsed_ms t =
            (predict_proba (transform t) > 0.5, predict_proba (transform t), conf, elapsed_ms) \<and>
     (conf = ''HIGH'' \<longleftrightarrow> predict_proba (transform t) > 0.8 \<or> predict_proba (transform t) < 0.2) \<and>
     (conf = ''MEDIUM'' \<longleftrightarrow>
        (0.2 \<le> predict_proba (transform t) \<and> predict_proba (transform t) < 0.4) \<or>
        (0.6 < predict_proba (transform t) \<and> predict_proba (transform t) \<le> 0.8)) \<and>
     (conf = ''LOW'' \<longleftrightarrow> 0.4 \<le> predict_proba (transform t) \<and> predict_proba (transform t) \<le> 0.6) \<and>
     (predict_proba (transform t) \<in> {0.4, 0.6} \<longrightarrow> conf = ''LOW'') \<and>
     (predict_proba (transform t) \<in> {0.2, 0.8} \<longrightarrow> conf = ''MEDIUM'')"
  by (auto simp: classify_message_def Let_def)

theorem model_confidence_tier_witness:
  "classify_message (Some (\<lambda>x::string. 0.4)) (Some (\<lambda>x. x)) 3 ''hello'' = (False, 0.4, ''LOW'', 3) \<and>
   classify_message (Some (\<lambda>x::string. 0.8)) (Some (\<lambda>x. x)) 3 ''hello'' = (True, 0.8, ''MEDIUM'', 3)"
  using model_confidence_tier [of "\<lambda>x::string. 0.4" "\<lambda>x. x" 3 "''hello''"]
    model_confidence_tier [of "\<lambda>x::string. 0.8" "\<lambda>x. x" 3 "''hello''"]
  by auto

text \<open>
  C3. Without a model or without a vectorizer, the risk score is 0.75 when the lower-cased
  text has \<open>urgent\<close> or \<open>click\<close> as a substring and 0.25 otherwise, the verdict is
  \<open>risk_score > 0.5\<close>, the confidence is HIGH for a score above 0.7 or below 0.3 and
  MEDIUM otherwise, and never LOW. The witness is the scan of
  \<open>URGENT: click here now\<close>.
\<close>

theorem heuristic_classifier:
  assumes "ml_model = None \<or> vectorizer = None"
  shows "\<exists>verdict score conf.
     classify_message ml_model vectorizer elapsed_ms t = (verdict, score, conf, elapsed_ms) \<and>
     score = (if sublist ''urgent'' (str_lower t) \<or> sublist ''click'' (str_lower t)
              then 0.75 else 0.25) \<and>
     verdict = (score > 0.5) \<and>
     conf = (if score > 0.7 \<or> score < 0.3 then ''HIGH'' else ''MEDIUM'') \<and>
     conf \<noteq> ''LOW''"
  using assms
  by (auto simp: classify_message_def Let_def contains_iff split: option.splits)

theorem heuristic_classifier_witness:
  "((None :: (string \<Rightarrow> real) option) = None \<or> (None :: (string \<Rightarrow> string) option) = None) \<and>
   classify_message (None :: (string \<Rightarrow> real) option) None 3 ''URGENT: click here now'' =
     (True, 0.75, ''HIGH'', 3)"
proof -
  have h: "(None :: (string \<Rightarrow> real) option) = None \<or> (None :: (string \<Rightarrow> string) option) = None"
    by simp
  have low: "str_lower ''URGENT: click here now'' = ''urgent: click here now''"
    by (simp add: str_lower_def lower_char_def)
  have "contains ''urgent'' ''urgent: click here now''" by simp
  then have sub: "sublist ''urgent'' (str_lower ''URGENT: click here now'')"
    by (simp only: low contains_iff)
  from heuristic_classifier [OF h, of 3 "''URGENT: click here now''"] sub
  show ?thesis by auto
qed

subsection \<open>Feedback submission\<close>

lemma feedback_statistics_row:
  assumes "u \<noteq> []" and "tbl u = Some row"
  shows "feedback_statistics now tbl (Some u) feedback =
           tbl(u \<mapsto> row\<lparr>feedback_provided := feedback_provided row + 1,
             correct_predictions :=
               correct_predictions row + (if feedback = ''CORRECT'' then 1 else 0),
             incorrect_predictions :=
               incorrect_predictions row + (if feedback = ''INCORRECT'' then 1 else 0),
             updated_at := Some now\<rparr>)"
  using assms by (simp add: feedback_statistics_def Let_def)

lemma feedback_statistics_noop:
  "uid = None \<or> uid = Some [] \<or> (\<exists>u. uid = Some u \<and> tbl u = None) \<Longrightarrow>
   feedback_statistics now tbl uid feedback = tbl"
  by (auto simp: feedback_statistics_def)

lemma submit_feedback_success:
  assumes "submit_feedback now d body = (Success msg, d')"
  shows "\<exists>data scan_id feedback scan.
           body = Some data \<and> json_scan_id data = Some scan_id \<and>
           json_feedback data = Some feedback \<and>
           feedback \<in> {''CORRECT'', ''INCORRECT'', ''UNSURE''} \<and>
           get_scan (scans d) scan_id = Some scan \<and>
           stats d' = feedback_statistics now (stats d) (user_id scan) feedback"
  using assms
  by (auto simp: submit_feedback_def split: option.splits if_splits)

text \<open>
  C8. A feedback submission that succeeds names an existing scan and one of the three
  feedback kinds. If the scan has a non-empty \<^verbatim>\<open>user_id\<close> whose statistics row exists,
  that row alone changes: \<open>feedback_provided\<close> grows by 1, \<open>correct_predictions\<close> by 1
  exactly for CORRECT, \<open>incorrect_predictions\<close> by 1 exactly for INCORRECT (so UNSURE
  moves only \<open>feedback_provided\<close>), and the scan counters and risk figures stay. Otherwise
  the statistics table is unchanged.
\<close>

theorem feedback_counters:
  assumes "submit_feedback now d body = (Success msg, d')"
  shows "\<exists>data scan_id feedback scan.
           body = Some data \<and> json_scan_id data = Some scan_id \<and>
           json_feedback data = Some feedback \<and>
           feedback \<in> {''CORRECT'', ''INCORRECT'', ''UNSURE''} \<and>
           get_scan (scans d) scan_id = Some scan \<and>
           (case user_id scan of
              None \<Rightarrow> stats d' = stats d
            | Some u \<Rightarrow>
              (case (if u = [] then None else stats d u) of
                 None \<Rightarrow> stats d' = stats d
               | Some row \<Rightarrow>
                   (\<exists>row'. stats d' = (stats d)(u \<mapsto> row') \<and>
                      feedback_provided row' = feedback_provided row + 1 \<and>
                      correct_predictions row' =
                        correct_predictions row + (if feedback = ''CORRECT'' then 1 else 0) \<and>
                      incorrect_predictions row' =
                        incorrect_predictions row + (if feedback = ''INCORRECT'' then 1 else 0) \<and>
                      total_scans row' = total_scans row \<and>
                      phishing_detected row' = phishing_detected row \<and>
                      safe_messages row' = safe_messages row \<and>
                      average_risk_score row' = average_risk_score row \<and>
                      highest_risk_score row' = highest_risk_score row)))"
proof -
  from submit_feedback_success [OF assms] obtain data scan_id feedback scan where
    ok: "body = Some data" "json_scan_id data = Some scan_id" "json_feedback data = Some feedback"
      "feedback \<in> {''CORRECT'', ''INCORRECT'', ''UNSURE''}"
      "get_scan (scans d) scan_id = Some scan"
      "stats d' = feedback_statistics now (stats d) (user_id scan) feedback"
    by blast
  have eff: "(case user_id scan of
              None \<Rightarrow> stats d' = stats d
            | Some u \<Rightarrow>
              (case (if u = [] then None else stats d u) of
                 None \<Rightarrow> stats d' = stats d
               | Some row \<Rightarrow>
                   (\<exists>row'. stats d' = (stats d)(u \<mapsto> row') \<and>
                      feedback_provided row' = feedback_provided row + 1 \<and>
                      correct_predictions row' =
                        correct_predictions row + (if feedback = ''CORRECT'' then 1 else 0) \<and>
                      incorrect_predictions row' =
                        incorrect_predictions row + (if feedback = ''INCORRECT'' then 1 else 0) \<and>
                      total_scans row' = total_scans row \<and>
                      phishing_detected row' = phishing_detected row \<and>
                      safe_messages row' = safe_messages row \<and>
                      average_risk_score row' = average_risk_score row \<and>
                      highest_risk_score row' = highest_risk_score row)))"
  proof (cases "user_id scan")
    case None
    then show ?thesis by (simp add: ok(6) feedback_statistics_noop)
  next
    case (Some u)
    show ?thesis
    proof (cases "u = [] \<or> stats d u = None")
      case True
      then show ?thesis by (auto simp: Some ok(6) feedback_statistics_noop)
    next
      case False
      then obtain row where r: "u \<noteq> []" "stats d u = Some row" by auto
      define row' where "row' = row\<lparr>feedback_provided := feedback_provided row + 1,
             correct_predictions :=
               correct_predictions row + (if feedback = ''CORRECT'' then 1 else 0),
             incorrect_predictions :=
               incorrect_predictions row + (if feedback = ''INCORRECT'' then 1 else 0),
             updated_at := Some now\<rparr>"
      have "feedback_statistics now (stats d) (Some u) feedback = (stats d)(u \<mapsto> row')"
        unfolding row'_def using r by (rule feedback_statistics_row)
      then have e: "stats d' = (stats d)(u \<mapsto> row')" by (simp add: ok(6) Some)
      have "\<exists>row'. stats d' = (stats d)(u \<mapsto> row') \<and>
                      feedback_provided row' = feedback_provided row + 1 \<and>
                      correct_predictions row' =
                        correct_predictions row + (if feedback = ''CORRECT'' then 1 else 0) \<and>
                      incorrect_predictions row' =
                        incorrect_predictions row + (if feedback = ''INCORRECT'' then 1 else 0) \<and>
                      total_scans row' = total_scans row \<and>
                      phishing_detected row' = phishing_detected row \<and>
                      safe_messages row' = safe_messages row \<and>
                      average_risk_score row' = average_risk_score row \<and>
                      highest_risk_score row' = highest_risk_score row"
        by (rule exI [of _ row']) (simp add: e, simp add: row'_def)
      then show ?thesis by (simp add: Some r)
    qed
  qed
  from ok(1-5) eff show ?thesis by blast
qed

theorem feedback_counters_witness:
  "submit_feedback 30 example_db (Some \<lparr>json_scan_id = Some 1, json_feedback = Some ''INCORRECT''\<rparr>)
     = (Success ''Feedback recorded successfully'',
        snd (submit_feedback 30 example_db
               (Some \<lparr>json_scan_id = Some 1, json_feedback = Some ''INCORRECT''\<rparr>))) \<and>
   map_option (\<lambda>row. (feedback_provided row, correct_predictions row, incorrect_predictions row))
     (stats (snd (submit_feedback 30 example_db
               (Some \<lparr>json_scan_id = Some 1, json_feedback = Some ''INCORRECT''\<rparr>))) ''user_7'')
     = Some (1, 0, 1)"
proof -
  have h: "submit_feedback 30 example_db
             (Some \<lparr>json_scan_id = Some 1, json_feedback = Some ''INCORRECT''\<rparr>)
     = (Success ''Feedback recorded successfully'',
        snd (submit_feedback 30 example_db
               (Some \<lparr>json_scan_id = Some 1, json_feedback = Some ''INCORRECT''\<rparr>)))"
    by (simp add: submit_feedback_def example_db_def example_scan_def get_scan_def)
  have g: "get_scan (scans example_db) 1 = Some (example_scan 1 (Some ''user_7'') 0.9 None)"
    by (simp add: example_db_def example_scan_def get_scan_def)
  from feedback_counters [OF h] g h show ?thesis
    by (auto simp: example_db_def example_scan_def)
qed

subsection \<open>Input errors\<close>

text \<open>
  C9. A scan request without a body, without the key \<^verbatim>\<open>message\<close>, or whose message is empty
  after stripping is answered with a 400 and the database is returned as it was. A feedback
  submission whose kind is not CORRECT, INCORRECT or UNSURE is answered with a 400, and one
  that names a scan that does not exist with a 400 or a 404; both leave the database as it
  was: no scan row is inserted, no feedback column written, no statistics row touched.
\<close>

theorem input_errors_do_not_mutate:
  "((scan_body req = None \<or>
     (\<exists>data. scan_body req = Some data \<and>
        (json_message data = None \<or>
         (\<exists>m. json_message data = Some (JString m) \<and> str_strip m = []))))
      \<longrightarrow> (\<exists>msg. scan_message ml vec sha e now d req = (Failure 400 msg, d))) \<and>
   ((\<exists>data. body = Some data \<and>
        json_feedback data \<notin> {Some ''CORRECT'', Some ''INCORRECT'', Some ''UNSURE''})
      \<longrightarrow> (\<exists>msg. submit_feedback now d body = (Failure 400 msg, d))) \<and>
   ((\<exists>data scan_id. body = Some data \<and> json_scan_id data = Some scan_id \<and>
        get_scan (scans d) scan_id = None)
      \<longrightarrow> (\<exists>code msg. submit_feedback now d body = (Failure code msg, d) \<and>
             code \<in> {400, 404}))"
proof (intro conjI impI)
  assume "scan_body req = None \<or>
     (\<exists>data. scan_body req = Some data \<and>
        (json_message data = None \<or>
         (\<exists>m. json_message data = Some (JString m) \<and> str_strip m = [])))"
  then show "\<exists>msg. scan_message ml vec sha e now d req = (Failure 400 msg, d)"
    by (auto simp: scan_message_def)
next
  assume "\<exists>data. body = Some data \<and>
        json_feedback data \<notin> {Some ''CORRECT'', Some ''INCORRECT'', Some ''UNSURE''}"
  then show "\<exists>msg. submit_feedback now d body = (Failure 400 msg, d)"
    by (auto simp: submit_feedback_def split: option.splits)
next
  assume "\<exists>data scan_id. body = Some data \<and> json_scan_id data = Some scan_id \<and>
        get_scan (scans d) scan_id = None"
  then show "\<exists>code msg. submit_feedback now d body = (Failure code msg, d) \<and>
             code \<in> {400, 404}"
    by (auto simp: submit_feedback_def split: option.splits)
qed

theorem input_errors_do_not_mutate_witness:
  "scan_message (None :: (string \<Rightarrow> real) option) (None :: (string \<Rightarrow> string) option) (\<lambda>x. x) 3 30 example_db
     \<lparr>scan_body = Some \<lparr>json_message = Some (JString ''   ''), json_user_id = Some ''user_7'',
                        json_device_id = None\<rparr>,
      remote_addr = None, header_user_agent = None\<rparr>
     = (Failure 400 ''Message cannot be empty'', example_db) \<and>
   submit_feedback 30 example_db (Some \<lparr>json_scan_id = Some 1, json_feedback = Some ''MAYBE''\<rparr>)
     = (Failure 400 ''Invalid feedback value. Must be CORRECT, INCORRECT, or UNSURE'', example_db) \<and>
   submit_feedback 30 example_db (Some \<lparr>json_scan_id = Some 99, json_feedback = Some ''CORRECT''\<rparr>)
     = (Failure 404 ''Scan not found'', example_db)"
proof -
  have s: "str_strip ''   '' = []" by (simp add: str_strip_def str_isspace_def)
  have g: "get_scan (scans example_db) 99 = None"
    by (simp add: get_scan_def example_db_def example_scan_def)
  note a = input_errors_do_not_mutate [of
      "\<lparr>scan_body = Some \<lparr>json_message = Some (JString ''   ''), json_user_id = Some ''user_7'',
                        json_device_id = None\<rparr>,
      remote_addr = None, header_user_agent = None\<rparr>"
      "None :: (string \<Rightarrow> real) option" "None :: (string \<Rightarrow> string) option" "\<lambda>x. x" 3 30 example_db
      "Some \<lparr>json_scan_id = Some 1, json_feedback = Some ''MAYBE''\<rparr>"]
  note b = input_errors_do_not_mutate [of
      "\<lparr>scan_body = None, remote_addr = None, header_user_agent = None\<rparr>"
      "None :: (string \<Rightarrow> real) option" "None :: (string \<Rightarrow> string) option" "\<lambda>x. x" 3 30 example_db
      "Some \<lparr>json_scan_id = Some 99, json_feedback = Some ''CORRECT''\<rparr>"]
  from a b s g show ?thesis
    by (simp add: scan_message_def submit_feedback_def)
qed

subsection \<open>Stripping the message text\<close>

lemma dropWhile_pad:
  "\<forall>c\<in>set ws. P c \<Longrightarrow> dropWhile P (ws @ xs) = dropWhile P xs"
  by (induction ws) auto

lemma str_strip_pad:
  assumes "\<forall>c\<in>set ws1. str_isspace c" and "\<forall>c\<in>set ws2. str_isspace c"
  shows "str_strip (ws1 @ m @ ws2) = str_strip m"
proof (cases "\<forall>c\<in>set m. str_isspace c")
  case True
  with assms have "\<forall>c\<in>set (ws1 @ m @ ws2). str_isspace c" by auto
  then have l: "dropWhile str_isspace (ws1 @ m @ ws2) = []"
    by (simp only: dropWhile_eq_Nil_conv)
  from True have r: "dropWhile str_isspace m = []" by (simp only: dropWhile_eq_Nil_conv)
  show ?thesis unfolding str_strip_def l r by simp
next
  case False
  then obtain c where c: "c \<in> set m" "\<not> str_isspace c" by blast
  then have "dropWhile str_isspace (m @ ws2) = dropWhile str_isspace m @ ws2"
    by (rule dropWhile_append1)
  with assms(1) have l: "dropWhile str_isspace (ws1 @ m @ ws2) = dropWhile str_isspace m @ ws2"
    by (simp add: dropWhile_pad)
  have "\<forall>c\<in>set (rev ws2). str_isspace c" using assms(2) by simp
  then have r: "dropWhile str_isspace (rev ws2 @ rev (dropWhile str_isspace m)) =
      dropWhile str_isspace (rev (dropWhile str_isspace m))"
    by (rule dropWhile_pad)
  show ?thesis unfolding str_strip_def l rev_append r ..
qed

lemma scan_message_stored:
  assumes "scan_body req = Some data" and "json_message data = Some (JString m)"
    and "str_strip m \<noteq> []"
  shows "\<exists>row. scans (snd (scan_message ml vec sha e now d req)) = scans d @ [row] \<and>
           message_text row = str_strip m \<and>
           message_hash row = Some (sha (str_strip m)) \<and>
           is_phishing row = fst (classify_message ml vec e (str_strip m)) \<and>
           risk_score row = fst (snd (classify_message ml vec e (str_strip m))) \<and>
           confidence_level row =
             Some (fst (snd (snd (classify_message ml vec e (str_strip m)))))"
  using assms
  by (auto simp: scan_message_def Let_def hash_message_def split: prod.splits sum.splits)

lemma classify_message_elapsed:
  "fst (classify_message ml vec e1 t) = fst (classify_message ml vec e2 t) \<and>
   fst (snd (classify_message ml vec e1 t)) = fst (snd (classify_message ml vec e2 t)) \<and>
   fst (snd (snd (classify_message ml vec e1 t))) = fst (snd (snd (classify_message ml vec e2 t)))"
  by (auto simp: classify_message_def Let_def split: option.splits)

text \<open>
  C10. A scan request whose message is not empty after stripping stores one new row whose
  \<^verbatim>\<open>message_text\<close> is the stripped text, whose \<^verbatim>\<open>message_hash\<close> is the digest of the
  stripped text, and whose verdict, risk score and confidence tier are those of the
  classifier on the stripped text. Hence a second request, whose text is the first one
  with whitespace added at either end, stores the same text, the same hash, the same
  verdict, the same risk score and the same confidence tier, whatever the database, the
  time and the other fields of the two requests.
\<close>

theorem scan_strips_message:
  assumes "\<forall>c\<in>set ws1. str_isspace c" and "\<forall>c\<in>set ws2. str_isspace c"
    and "str_strip m \<noteq> []"
    and "scan_body req1 = Some data1" and "json_message data1 = Some (JString m)"
    and "scan_body req2 = Some data2" and "json_message data2 = Some (JString (ws1 @ m @ ws2))"
  shows "\<exists>row1 row2.
           scans (snd (scan_message ml vec sha e1 now1 d1 req1)) = scans d1 @ [row1] \<and>
           scans (snd (scan_message ml vec sha e2 now2 d2 req2)) = scans d2 @ [row2] \<and>
           message_text row1 = str_strip m \<and>
           message_text row2 = message_text row1 \<and>
           message_hash row1 = Some (sha (str_strip m)) \<and>
           message_hash row2 = message_hash row1 \<and>
           is_phishing row1 = fst (classify_message ml vec e1 (str_strip m)) \<and>
           is_phishing row2 = is_phishing row1 \<and>
           risk_score row1 = fst (snd (classify_message ml vec e1 (str_strip m))) \<and>
           risk_score row2 = risk_score row1 \<and>
           confidence_level row2 = confidence_level row1"
proof -
  have pad: "str_strip (ws1 @ m @ ws2) = str_strip m"
    using assms(1,2) by (rule str_strip_pad)
  from scan_message_stored [OF assms(4,5,3), of ml vec sha e1 now1 d1] obtain row1 where
    r1: "scans (snd (scan_message ml vec sha e1 now1 d1 req1)) = scans d1 @ [row1]"
      "message_text row1 = str_strip m"
      "message_hash row1 = Some (sha (str_strip m))"
      "is_phishing row1 = fst (classify_message ml vec e1 (str_strip m))"
      "risk_score row1 = fst (snd (classify_message ml vec e1 (str_strip m)))"
      "confidence_level row1 = Some (fst (snd (snd (classify_message ml vec e1 (str_strip m)))))"
    by blast
  from assms(3) pad have ne: "str_strip (ws1 @ m @ ws2) \<noteq> []" by simp
  from scan_message_stored [OF assms(6,7) ne, of ml vec sha e2 now2 d2] obtain row2 where
    r2: "scans (snd (scan_message ml vec sha e2 now2 d2 req2)) = scans d2 @ [row2]"
      "message_text row2 = str_strip m"
      "message_hash row2 = Some (sha (str_strip m))"
      "is_phishing row2 = fst (classify_message ml vec e2 (str_strip m))"
      "risk_score row2 = fst (snd (classify_message ml vec e2 (str_strip m)))"
      "confidence_level row2 = Some (fst (snd (snd (classify_message ml vec e2 (str_strip m)))))"
    unfolding pad by blast
  from classify_message_elapsed [of ml vec e1 "str_strip m" e2]
  have same: "is_phishing row2 = is_phishing row1" "risk_score row2 = risk_score row1"
    "confidence_level row2 = confidence_level row1"
    by (simp_all add: r1 r2)
  show ?thesis
    using r1 r2 same by (intro exI [of _ row1] exI [of _ row2]) simp
qed

theorem scan_strips_message_witness:
  "list_all str_isspace ''  '' \<and> list_all str_isspace '' '' \<and>
   str_strip ''click me'' \<noteq> [] \<and>
   (\<exists>row1 row2.
      scans (snd (scan_message (None :: (string \<Rightarrow> real) option) (None :: (string \<Rightarrow> string) option)
                    rev 3 30 example_db (example_request ''click me''))) =
        scans example_db @ [row1] \<and>
      scans (snd (scan_message (None :: (string \<Rightarrow> real) option) (None :: (string \<Rightarrow> string) option)
                    rev 5 40 example_db (example_request ''  click me ''))) =
        scans example_db @ [row2] \<and>
      message_text row1 = ''click me'' \<and> message_text row2 = ''click me'' \<and>
      message_hash row1 = Some ''em kcilc'' \<and> message_hash row2 = Some ''em kcilc'' \<and>
      is_phishing row2 = is_phishing row1 \<and> risk_score row2 = risk_score row1 \<and>
      confidence_level row2 = confidence_level row1)"
proof -
  have h1: "\<forall>c\<in>set ''  ''. str_isspace c" by (simp add: str_isspace_def)
  have h2: "\<forall>c\<in>set '' ''. str_isspace c" by (simp add: str_isspace_def)
  have st: "str_strip ''click me'' = ''click me''" by (simp add: str_strip_def str_isspace_def)
  then have h3: "str_strip ''click me'' \<noteq> []" by simp
  have h4: "scan_body (example_request ''click me'') =
      Some \<lparr>json_message = Some (JString ''click me''), json_user_id = Some ''user_7'',
            json_device_id = None\<rparr>"
    by (simp add: example_request_def)
  have h5: "json_message \<lparr>json_message = Some (JString ''click me''),
      json_user_id = Some ''user_7'', json_device_id = None\<rparr> = Some (JString ''click me'')"
    by simp
  have h6: "scan_body (example_request ''  click me '') =
      Some \<lparr>json_message = Some (JString ''  click me ''), json_user_id = Some ''user_7'',
            json_device_id = None\<rparr>"
    by (simp add: example_request_def)
  have h7: "json_message \<lparr>json_message = Some (JString ''  click me ''),
      json_user_id = Some ''user_7'', json_device_id = None\<rparr> =
      Some (JString (''  '' @ ''click me'' @ '' ''))"
    by simp
  from scan_strips_message [OF h1 h2 h3 h4 h5 h6 h7,
      of "None :: (string \<Rightarrow> real) option" "None :: (string \<Rightarrow> string) option" rev 3 30 example_db
         5 40 example_db]
  obtain row1 row2 where
    r: "scans (snd (scan_message (None :: (string \<Rightarrow> real) option) (None :: (string \<Rightarrow> string) option)
                    rev 3 30 example_db (example_request ''click me''))) =
        scans example_db @ [row1]"
      "scans (snd (scan_message (None :: (string \<Rightarrow> real) option) (None :: (string \<Rightarrow> string) option)
                    rev 5 40 example_db (example_request ''  click me ''))) =
        scans example_db @ [row2]"
      "message_text row1 = str_strip ''click me''"
      "message_text row2 = message_text row1"
      "message_hash row1 = Some (rev (str_strip ''click me''))"
      "message_hash row2 = message_hash row1"
      "is_phishing row2 = is_phishing row1" "risk_score row2 = risk_score row1"
      "confidence_level row2 = confidence_level row1"
    by blast
  have "\<exists>row1 row2.
      scans (snd (scan_message (None :: (string \<Rightarrow> real) option) (None :: (string \<Rightarrow> string) option)
                    rev 3 30 example_db (example_request ''click me''))) =
        scans example_db @ [row1] \<and>
      scans (snd (scan_message (None :: (string \<Rightarrow> real) option) (None :: (string \<Rightarrow> string) option)
                    rev 5 40 example_db (example_request ''  click me ''))) =
        scans example_db @ [row2] \<and>
      message_text row1 = ''click me'' \<and> message_text row2 = ''click me'' \<and>
      message_hash row1 = Some ''em kcilc'' \<and> message_hash row2 = Some ''em kcilc'' \<and>
      is_phishing row2 = is_phishing row1 \<and> risk_score row2 = risk_score row1 \<and>
      confidence_level row2 = confidence_level row1"
    using r by (intro exI [of _ row1] exI [of _ row2]) (simp add: st)
  with h1 h2 h3 show ?thesis by (simp only: list_all_iff) blast
qed

subsection \<open>Accuracy from feedback\<close>

lemma count_feedback_eq_le: "count_feedback_eq kind rows \<le> count_feedback rows"
proof -
  have "length (filter (\<lambda>s. user_feedback s = Some kind) rows) \<le>
        length (filter (\<lambda>s. user_feedback s \<noteq> None) rows)"
    by (induction rows) auto
  then show ?thesis by (simp add: count_feedback_eq_def count_feedback_def)
qed

lemma count_feedback_eq_nonneg: "0 \<le> count_feedback_eq kind rows"
  by (simp add: count_feedback_eq_def)

lemma py_round_0: "py_round 0 2 = 0"
  by (simp add: py_round_def round_half_even_def)

lemma py_round_100: "py_round 100 2 = 100"
  by (simp add: py_round_def round_half_even_def)

text \<open>
  C4, as stated, fails: with a single feedback, UNSURE, there is no CORRECT and no
  INCORRECT feedback, yet the function returns the number 0 as accuracy, not
  \<^verbatim>\<open>None\<close>.
\<close>

theorem accuracy_unsure_only_counterexample:
  "count_feedback_eq ''CORRECT'' [example_scan 1 (Some ''user_7'') 0.9 (Some ''UNSURE'')] +
   count_feedback_eq ''INCORRECT'' [example_scan 1 (Some ''user_7'') 0.9 (Some ''UNSURE'')] = 0 \<and>
   acc_accuracy (get_model_accuracy_from_feedback
     [example_scan 1 (Some ''user_7'') 0.9 (Some ''UNSURE'')]) = Some 0"
  by (simp add: get_model_accuracy_from_feedback_def count_feedback_def count_feedback_eq_def
      example_scan_def py_round_def round_half_even_def)

text \<open>
  C4, amended. The function reports "no data" (accuracy \<^verbatim>\<open>None\<close> with the message) when
  no row has any feedback. When some row has feedback it returns a number: 0 when none
  of the feedback is CORRECT or INCORRECT, and otherwise
  \<open>correct / (correct + incorrect) * 100\<close> rounded to two decimals; that is 100 when
  there is CORRECT and no INCORRECT feedback, and 0 when there is INCORRECT and no
  CORRECT feedback.
\<close>

theorem accuracy_from_feedback:
  "(count_feedback rows = 0 \<longrightarrow>
      acc_accuracy (get_model_accuracy_from_feedback rows) = None \<and>
      acc_message (get_model_accuracy_from_feedback rows) = Some ''No feedback data available'') \<and>
   (count_feedback rows \<noteq> 0 \<longrightarrow>
      count_feedback_eq ''CORRECT'' rows + count_feedback_eq ''INCORRECT'' rows = 0 \<longrightarrow>
      acc_accuracy (get_model_accuracy_from_feedback rows) = Some 0) \<and>
   (0 < count_feedback_eq ''CORRECT'' rows + count_feedback_eq ''INCORRECT'' rows \<longrightarrow>
      acc_accuracy (get_model_accuracy_from_feedback rows) =
        Some (py_round
          (real_of_int (count_feedback_eq ''CORRECT'' rows) /
           real_of_int (count_feedback_eq ''CORRECT'' rows + count_feedback_eq ''INCORRECT'' rows)
             * 100) 2)) \<and>
   (0 < count_feedback_eq ''CORRECT'' rows \<longrightarrow> count_feedback_eq ''INCORRECT'' rows = 0 \<longrightarrow>
      acc_accuracy (get_model_accuracy_from_feedback rows) = Some 100) \<and>
   (0 < count_feedback_eq ''INCORRECT'' rows \<longrightarrow> count_feedback_eq ''CORRECT'' rows = 0 \<longrightarrow>
      acc_accuracy (get_model_accuracy_from_feedback rows) = Some 0)"
proof -
  define c where "c = count_feedback_eq ''CORRECT'' rows"
  define i where "i = count_feedback_eq ''INCORRECT'' rows"
  define n where "n = count_feedback rows"
  have le: "c \<le> n" "i \<le> n" "0 \<le> c" "0 \<le> i"
    by (simp_all add: c_def i_def n_def count_feedback_eq_le count_feedback_eq_nonneg)
  note r0 = py_round_0 and r100 = py_round_100
  have none: "n = 0 \<Longrightarrow> acc_accuracy (get_model_accuracy_from_feedback rows) = None \<and>
      acc_message (get_model_accuracy_from_feedback rows) = Some ''No feedback data available''"
    by (simp add: get_model_accuracy_from_feedback_def n_def)
  have some: "n \<noteq> 0 \<Longrightarrow> acc_accuracy (get_model_accuracy_from_feedback rows) =
      Some (py_round ((if c + i > 0 then real_of_int c / real_of_int (c + i) else 0) * 100) 2)"
    by (simp add: get_model_accuracy_from_feedback_def n_def c_def i_def Let_def)
  have pos: "0 < c + i \<Longrightarrow> n \<noteq> 0" using le by linarith
  have a: "n \<noteq> 0 \<longrightarrow> c + i = 0 \<longrightarrow>
      acc_accuracy (get_model_accuracy_from_feedback rows) = Some 0"
    by (simp add: some r0)
  have b: "0 < c + i \<longrightarrow> acc_accuracy (get_model_accuracy_from_feedback rows) =
        Some (py_round (real_of_int c / real_of_int (c + i) * 100) 2)"
    using pos by (simp add: some)
  have d: "0 < c \<longrightarrow> i = 0 \<longrightarrow> acc_accuracy (get_model_accuracy_from_feedback rows) = Some 100"
    using pos by (simp add: some r100)
  have e: "0 < i \<longrightarrow> c = 0 \<longrightarrow> acc_accuracy (get_model_accuracy_from_feedback rows) = Some 0"
    using pos by (simp add: some r0)
  from none a b d e show ?thesis
    unfolding c_def i_def n_def by blast
qed

theorem accuracy_from_feedback_witness:
  "0 < count_feedback_eq ''CORRECT'' feedback_rows + count_feedback_eq ''INCORRECT'' feedback_rows \<and>
   acc_accuracy (get_model_accuracy_from_feedback feedback_rows) = Some 33.33 \<and>
   count_feedback [example_scan 5 None 0.3 None] = 0 \<and>
   acc_accuracy (get_model_accuracy_from_feedback [example_scan 5 None 0.3 None]) = None"
proof -
  have c: "count_feedback_eq ''CORRECT'' feedback_rows = 1"
    by (simp add: count_feedback_eq_def feedback_rows_def example_scan_def)
  have i: "count_feedback_eq ''INCORRECT'' feedback_rows = 2"
    by (simp add: count_feedback_eq_def feedback_rows_def example_scan_def)
  have n: "count_feedback [example_scan 5 None 0.3 None] = 0"
    by (simp add: count_feedback_def example_scan_def)
  have r: "py_round (1 / 3 * 100) 2 = 33.33"
    by (simp add: py_round_def round_half_even_def)
  from accuracy_from_feedback [of feedback_rows]
    accuracy_from_feedback [of "[example_scan 5 None 0.3 None]"] c i n r
  show ?thesis by simp
qed

subsection \<open>The risk histogram\<close>

text \<open>A score in \<open>[0, 1)\<close> lies in exactly one of the \<open>n\<close> half-open bins, any other score in none.\<close>

lemma bin_index:
  fixes s :: real and n i :: nat
  assumes "0 < n" and "0 \<le> s"
  shows "(real i * (1 / real n) \<le> s \<and> s < (real i + 1) * (1 / real n)) \<longleftrightarrow> i = nat \<lfloor>s * real n\<rfloor>"
proof -
  have n: "0 < real n" using assms(1) by simp
  have nn: "0 \<le> \<lfloor>s * real n\<rfloor>" using assms(2) n by simp
  have a: "real i * (1 / real n) \<le> s \<longleftrightarrow> int i \<le> \<lfloor>s * real n\<rfloor>"
  proof -
    have "real i * (1 / real n) \<le> s \<longleftrightarrow> real i \<le> s * real n"
      using n by (simp add: pos_divide_le_eq)
    also have "\<dots> \<longleftrightarrow> of_int (int i) \<le> s * real n" by simp
    also have "\<dots> \<longleftrightarrow> int i \<le> \<lfloor>s * real n\<rfloor>" by (simp only: le_floor_iff)
    finally show ?thesis .
  qed
  have b: "s < (real i + 1) * (1 / real n) \<longleftrightarrow> \<lfloor>s * real n\<rfloor> < int i + 1"
  proof -
    have "s < (real i + 1) * (1 / real n) \<longleftrightarrow> s * real n < real i + 1"
      using n by (simp add: pos_less_divide_eq)
    also have "\<dots> \<longleftrightarrow> s * real n < of_int (int i + 1)" by simp
    also have "\<dots> \<longleftrightarrow> \<lfloor>s * real n\<rfloor> < int i + 1" by (simp only: floor_less_iff)
    finally show ?thesis .
  qed
  show ?thesis unfolding a b using nn by linarith
qed

lemma one_bin_per_score:
  fixes s :: real and n :: nat
  assumes "0 < n"
  shows "(\<Sum>i\<leftarrow>[0..<n]. if real i * (1 / real n) \<le> s \<and> s < (real i + 1) * (1 / real n)
                       then 1 else 0 :: int) = (if 0 \<le> s \<and> s < 1 then 1 else 0)"
proof -
  have n: "0 < real n" using assms by simp
  let ?P = "\<lambda>i. real i * (1 / real n) \<le> s \<and> s < (real i + 1) * (1 / real n)"
  have sum: "(\<Sum>i\<leftarrow>[0..<n]. if ?P i then 1 else 0 :: int) = (\<Sum>i\<in>{0..<n}. if ?P i then 1 else 0)"
    by (simp add: interv_sum_list_conv_sum_set_nat)
  show ?thesis
  proof (cases "0 \<le> s \<and> s < 1")
    case True
    then have "s * real n < real n" using n by simp
    then have "\<lfloor>s * real n\<rfloor> < int n" by (simp add: floor_less_iff)
    then have "nat \<lfloor>s * real n\<rfloor> < n" using assms by linarith
    then have k: "nat \<lfloor>s * real n\<rfloor> \<in> {0..<n}" by simp
    have "(\<Sum>i\<in>{0..<n}. if ?P i then 1 else 0 :: int) =
          (\<Sum>i\<in>{0..<n}. if i = nat \<lfloor>s * real n\<rfloor> then 1 else 0)"
      using bin_index [OF assms, of s] True by simp
    also have "\<dots> = 1" using k by (simp add: sum.delta)
    finally show ?thesis using True sum by simp
  next
    case False
    have "\<not> ?P i" if "i \<in> {0..<n}" for i
    proof (cases "s < 0")
      case True
      have "0 \<le> real i * (1 / real n)" by simp
      with True show ?thesis by linarith
    next
      case False
      with \<open>\<not> (0 \<le> s \<and> s < 1)\<close> have "1 \<le> s" by simp
      from that have "real i + 1 \<le> real n" by simp
      then have "(real i + 1) * (1 / real n) \<le> 1" using n by (simp add: pos_divide_le_eq)
      with \<open>1 \<le> s\<close> show ?thesis by linarith
    qed
    then have "(\<Sum>i\<in>{0..<n}. if ?P i then 1 else 0 :: int) = 0"
      by (intro sum.neutral ballI) (simp only: if_False)
    with False sum show ?thesis by simp
  qed
qed

lemma count_in_range_Cons:
  "count_in_range (r # rows) lo hi =
     (if lo \<le> risk_score r \<and> risk_score r < hi then 1 else 0) + count_in_range rows lo hi"
  by (simp add: count_in_range_def)


lemma sum_counts:
  fixes n :: nat
  assumes "0 < n"
  shows "(\<Sum>i\<leftarrow>[0..<n]. count_in_range rows (real i * (1 / real n)) ((real i + 1) * (1 / real n))) =
           int (length (filter (\<lambda>r. 0 \<le> risk_score r \<and> risk_score r < 1) rows))"
proof (induction rows)
  case Nil
  have "(\<Sum>i\<leftarrow>[0..<n]. (0::int)) = 0" by (induction n) simp_all
  then show ?case by (simp add: count_in_range_def)
next
  case (Cons r rows)
  have "(\<Sum>i\<leftarrow>[0..<n]. count_in_range (r # rows) (real i * (1 / real n))
            ((real i + 1) * (1 / real n))) =
        (\<Sum>i\<leftarrow>[0..<n]. if real i * (1 / real n) \<le> risk_score r \<and>
                              risk_score r < (real i + 1) * (1 / real n) then 1 else 0) +
        (\<Sum>i\<leftarrow>[0..<n]. count_in_range rows (real i * (1 / real n))
            ((real i + 1) * (1 / real n)))"
    by (simp only: count_in_range_Cons sum_list_addf)
  also have "\<dots> = (if 0 \<le> risk_score r \<and> risk_score r < 1 then 1 else 0) +
        int (length (filter (\<lambda>r. 0 \<le> risk_score r \<and> risk_score r < 1) rows))"
    by (simp only: one_bin_per_score [OF assms] Cons.IH)
  also have "\<dots> = int (length (filter (\<lambda>r. 0 \<le> risk_score r \<and> risk_score r < 1) (r # rows)))"
    by simp
  finally show ?case .
qed


text \<open>
  What the bins do count: for a positive number of bins the function returns that many
  bins, and their counts add up to the number of rows whose score lies in \<open>[0, 1)\<close>.
\<close>

lemma histogram_counts_scores_below_one:
  assumes "0 < bins"
  shows "\<exists>hist. get_risk_score_distribution bins rows = Inr hist \<and> length hist = nat bins \<and>
           sum_list (map (\<lambda>(lower, upper, count). count) hist) =
             int (length (filter (\<lambda>r. 0 \<le> risk_score r \<and> risk_score r < 1) rows))"
proof -
  from assms have "bins = int (nat bins)" "0 < nat bins" by simp_all
  then obtain n where n: "bins = int n" "0 < n" by blast
  define hist where "hist =
      map (\<lambda>i. (real i * (1 / real n), (real i + 1) * (1 / real n),
                 count_in_range rows (real i * (1 / real n)) ((real i + 1) * (1 / real n))))
          [0..<n]"
  have run: "get_risk_score_distribution bins rows = Inr hist"
    using n(2) by (simp add: get_risk_score_distribution_def Let_def n(1) hist_def)
  have len: "length hist = nat bins" by (simp add: hist_def n(1))
  have "map (\<lambda>(lower, upper, count). count) hist =
        map (\<lambda>i. count_in_range rows (real i * (1 / real n)) ((real i + 1) * (1 / real n)))
          [0..<n]"
    by (simp add: hist_def)
  then have "sum_list (map (\<lambda>(lower, upper, count). count) hist) =
        int (length (filter (\<lambda>r. 0 \<le> risk_score r \<and> risk_score r < 1) rows))"
    by (simp only: sum_counts [OF n(2)])
  with run len show ?thesis by blast
qed

text \<open>
  C5. Every bin of \<^verbatim>\<open>get_risk_score_distribution\<close>, the last one included, is the
  half-open interval \<open>[lower, upper)\<close>: a row whose risk score is exactly 1 is counted in
  no bin. With one bin and one such row the single count is 0; with two bins, a row of
  score 1 and a row of score 0.5, the counts are 0 and 1, one short of the two rows.
\<close>

theorem risk_histogram_drops_score_one:
  "get_risk_score_distribution 1 [example_scan 1 (Some ''user_7'') 1 None] = Inr [(0, 1, 0)] \<and>
   get_risk_score_distribution 2
     [example_scan 1 (Some ''user_7'') 1 None, example_scan 2 None 0.5 None] =
     Inr [(0, 1 / 2, 0), (1 / 2, 1, 1)]"
  by (simp add: get_risk_score_distribution_def count_in_range_def example_scan_def Let_def
      upt_rec)

end
